theory Spec2Isabelle
  imports Main
begin

section \<open>OSSA lifetime completion: swift/SIL/OSSALifetimeCompletion.h\<close>

text \<open>
  The header defines two classes. \<open>OSSALifetimeCompletion\<close> holds the inline
  function \<open>completeOSSALifetime\<close> (lines 98-116) and declares
  \<open>analyzeAndUpdateLifetime\<close> and \<open>visitAvailabilityBoundary\<close>, whose bodies
  live in a translation unit that is not part of the sources.
  \<open>UnreachableLifetimeCompletion\<close> holds the inline \<open>visitUnreachableBlock\<close>
  (lines 165-167) and declares \<open>visitUnreachableInst\<close> and \<open>completeLifetimes\<close>.

  The inline functions are embedded as they are written. The declared-only member
  \<open>analyzeAndUpdateLifetime\<close> is a parameter of the embedding of its caller.
  The SIL data types come from headers that are not part of the sources; they are
  modelled from the specification's data model, each marked as such.
\<close>

subsection \<open>SIL values\<close>

text \<open>
  Modelled from the spec: \<open>OwnershipKind\<close> is declared outside the sources. Section 3:
  a value has an ownership kind in {None, Owned, Guaranteed}. The constructor for
  \<open>OwnershipKind::None\<close> carries a suffix, since \<open>None\<close> is taken by \<open>option\<close>.
\<close>

datatype OwnershipKind = None_kind | Owned | Guaranteed

text \<open>
  Modelled from the spec: \<open>SILValue\<close> is declared outside the sources. A value is its
  identity together with what the header asks of it: its ownership kind, whether it
  introduces a borrow scope, whether that scope is local, and whether it is lexical.
\<close>

record SILValue =
  valueID :: nat
  ownershipKind :: OwnershipKind
  borrowIntroducer :: bool
  localScope :: bool
  lexical :: bool

definition getOwnershipKind :: "SILValue \<Rightarrow> OwnershipKind" where
  "getOwnershipKind value = ownershipKind value"

text \<open>
  Modelled from the spec: \<open>BorrowedValue\<close> is declared outside the sources. Section 3:
  "Guaranteed values additionally carry a borrow introducer flag". The conversion
  \<open>BorrowedValue(value)\<close> is valid (\<open>Some\<close>) for a guaranteed value that introduces a
  borrow, and invalid (\<open>None\<close>, what \<open>!borrowedValue\<close> tests) otherwise.
\<close>

definition BorrowedValue :: "SILValue \<Rightarrow> SILValue option" where
  "BorrowedValue value =
     (if ownershipKind value = Guaranteed \<and> borrowIntroducer value then Some value else None)"

definition isLocalScope :: "SILValue \<Rightarrow> bool" where
  "isLocalScope borrowedValue = localScope borrowedValue"

definition isLexical :: "SILValue \<Rightarrow> bool" where
  "isLexical value = lexical value"

subsection \<open>The function body\<close>

text \<open>
  Modelled from the spec: \<open>SILFunction\<close>, \<open>SILBasicBlock\<close> and \<open>SILInstruction\<close> are
  declared outside the sources. Section 3: a control-flow graph of "basic blocks
  containing ordered instructions, connected by successor edges", with dead-end blocks
  "whose terminator is a guaranteed-non-returning operation". Glossary: a
  lifetime-ending instruction "discharges a value's ownership obligation (consumes an
  Owned value, or closes a Guaranteed borrow scope)". Blocks are named by their index
  in the function; block 0 is the entry; function arguments are defined on entry.
\<close>

datatype TermKind = ReturnInst | BranchInst | UnreachableInst

datatype SILInstruction =
    DefInst SILValue
  | UseInst SILValue
  | EndLifetimeInst SILValue
  | TermInst TermKind

record SILBasicBlock =
  insts :: "SILInstruction list"
  succs :: "nat list"

record SILFunction =
  args :: "SILValue list"
  blocks :: "SILBasicBlock list"

text \<open>
  Modelled from the spec: the dominance relation is "a partial order over blocks"
  (section 3), optional for the engine (\<open>domInfo\<close> may be \<open>nullptr\<close>).
\<close>

type_synonym DominanceInfo = "(nat \<times> nat) set"

subsection \<open>OSSALifetimeCompletion\<close>

datatype LifetimeCompletion = NoLifetime | AlreadyComplete | WasCompleted

datatype Boundary = Liveness | Availability | AvailabilityWithLeaks

text \<open>
  The class has the members \<open>domInfo\<close> and \<open>completedValues\<close>. The function it was
  built for is mutated in place through the values; the embedding threads it through
  the state as \<open>silFunction\<close>.
\<close>

record OSSALifetimeCompletion =
  domInfo :: "DominanceInfo option"
  completedValues :: "SILValue set"
  silFunction :: SILFunction

text \<open>The constructor (lines 50-51): an empty \<open>completedValues\<close> for the function.\<close>

definition OSSALifetimeCompletion_init ::
  "SILFunction \<Rightarrow> DominanceInfo option \<Rightarrow> OSSALifetimeCompletion" where
  "OSSALifetimeCompletion_init f d =
     \<lparr>domInfo = d, completedValues = {}, silFunction = f\<rparr>"

text \<open>
  \<open>ValueSet::insert\<close> returns whether the value was new, and the set holds it
  afterwards.
\<close>

definition insert_ValueSet :: "SILValue \<Rightarrow> SILValue set \<Rightarrow> bool \<times> SILValue set" where
  "insert_ValueSet value vs = (value \<notin> vs, insert value vs)"

text \<open>
  \<open>analyzeAndUpdateLifetime\<close> (line 129) is a member function: it sees and may change
  the whole state, and returns whether it created instructions.
\<close>

type_synonym analyzeFn =
  "SILValue \<Rightarrow> Boundary \<Rightarrow> OSSALifetimeCompletion \<Rightarrow> bool \<times> OSSALifetimeCompletion"

text \<open>Lines 98-116, branch by branch.\<close>

definition completeOSSALifetime ::
  "analyzeFn \<Rightarrow> SILValue \<Rightarrow> Boundary \<Rightarrow> OSSALifetimeCompletion
     \<Rightarrow> LifetimeCompletion \<times> OSSALifetimeCompletion" where
  "completeOSSALifetime analyzeAndUpdateLifetime value boundary s =
     (if getOwnershipKind value = None_kind then (NoLifetime, s)
      else
        (case (if getOwnershipKind value \<noteq> Owned then
                 (case BorrowedValue value of
                    None \<Rightarrow> Some NoLifetime
                  | Some borrowedValue \<Rightarrow>
                      if \<not> isLocalScope borrowedValue then Some AlreadyComplete else None)
               else None) of
           Some early \<Rightarrow> (early, s)
         | None \<Rightarrow>
             (case insert_ValueSet value (completedValues s) of
                (inserted, vs) \<Rightarrow>
                  if \<not> inserted then (AlreadyComplete, s\<lparr>completedValues := vs\<rparr>)
                  else
                    (case analyzeAndUpdateLifetime value boundary (s\<lparr>completedValues := vs\<rparr>) of
                       (changed, s') \<Rightarrow>
                         (if changed then WasCompleted else AlreadyComplete, s')))))"

text \<open>
  The values that reach line 110: Owned ones, and borrow introducers with a local
  scope. Every other value returns at lines 100, 105 or 108.
\<close>

definition eligible :: "SILValue \<Rightarrow> bool" where
  "eligible value =
     (getOwnershipKind value = Owned \<or>
      (case BorrowedValue value of None \<Rightarrow> False | Some borrowedValue \<Rightarrow> isLocalScope borrowedValue))"

text \<open>
  A sequence of calls on one engine instance, in order, with the result of each call.
\<close>

fun completeAll ::
  "analyzeFn \<Rightarrow> (SILValue \<times> Boundary) list \<Rightarrow> OSSALifetimeCompletion
     \<Rightarrow> LifetimeCompletion list \<times> OSSALifetimeCompletion" where
  "completeAll A [] s = ([], s)"
| "completeAll A ((value, boundary) # calls) s =
     (case completeOSSALifetime A value boundary s of
        (r, s') \<Rightarrow> (case completeAll A calls s' of (rs, s'') \<Rightarrow> (r # rs, s'')))"

text \<open>The calls on \<open>value\<close> among \<open>calls\<close> that returned WasCompleted.\<close>

definition wasCompletedCalls ::
  "SILValue \<Rightarrow> (SILValue \<times> Boundary) list \<Rightarrow> LifetimeCompletion list
     \<Rightarrow> ((SILValue \<times> Boundary) \<times> LifetimeCompletion) list" where
  "wasCompletedCalls value calls rs =
     filter (\<lambda>(c, r). fst c = value \<and> r = WasCompleted) (zip calls rs)"

text \<open>
  What the properties below ask of \<open>analyzeAndUpdateLifetime\<close>, whose body is not in
  the header. The header only ever inserts into \<open>completedValues\<close>:
  \<open>keepsCompleted\<close> says the missing body takes nothing out, \<open>addsOnlyEligible\<close> that
  whatever it adds (it completes nested borrow scopes through \<open>completeOSSALifetime\<close>)
  is a value that reaches line 110.
\<close>

definition keepsCompleted :: "analyzeFn \<Rightarrow> bool" where
  "keepsCompleted A = (\<forall>u b t. completedValues t \<subseteq> completedValues (snd (A u b t)))"

definition addsOnlyEligible :: "analyzeFn \<Rightarrow> bool" where
  "addsOnlyEligible A =
     (\<forall>u b t. \<forall>w \<in> completedValues (snd (A u b t)). w \<in> completedValues t \<or> eligible w)"

definition onlyEligible :: "OSSALifetimeCompletion \<Rightarrow> bool" where
  "onlyEligible s = (\<forall>w \<in> completedValues s. eligible w)"

subsection \<open>Paths\<close>

text \<open>
  Modelled from the spec: the paths "from v's definition to function exit" (sections 1
  and 8). A path is a list of blocks, each a successor of the one before, up to a block
  without successors.
\<close>

fun isPath :: "SILFunction \<Rightarrow> nat list \<Rightarrow> bool" where
  "isPath f [] = False"
| "isPath f [b] = (b < length (blocks f) \<and> succs (blocks f ! b) = [])"
| "isPath f (b # c # p) =
     (b < length (blocks f) \<and> c \<in> set (succs (blocks f ! b)) \<and> isPath f (c # p))"

text \<open>
  Modelled from the spec: the instructions met on a path, from index \<open>i\<close> of its
  first block on.
\<close>

definition pathInsts :: "SILFunction \<Rightarrow> nat \<Rightarrow> nat list \<Rightarrow> SILInstruction list" where
  "pathInsts f i p =
     (case p of
        [] \<Rightarrow> []
      | b # rest \<Rightarrow> drop i (insts (blocks f ! b)) @ concat (map (\<lambda>c. insts (blocks f ! c)) rest))"

text \<open>
  Modelled from the spec: where a value is defined. An argument is defined on entry to
  block 0, any other value just after its defining instruction.
\<close>

fun defIndex :: "SILValue \<Rightarrow> SILInstruction list \<Rightarrow> nat option" where
  "defIndex v [] = None"
| "defIndex v (i # rest) = (if i = DefInst v then Some 1 else map_option Suc (defIndex v rest))"

fun defInBlocks :: "SILValue \<Rightarrow> SILBasicBlock list \<Rightarrow> nat \<Rightarrow> (nat \<times> nat) option" where
  "defInBlocks v [] n = None"
| "defInBlocks v (b # bs) n =
     (case defIndex v (insts b) of
        Some i \<Rightarrow> Some (n, i)
      | None \<Rightarrow> defInBlocks v bs (Suc n))"

definition defPoint :: "SILFunction \<Rightarrow> SILValue \<Rightarrow> (nat \<times> nat) option" where
  "defPoint f v = (if v \<in> set (args f) then Some (0, 0) else defInBlocks v (blocks f) 0)"

subsection \<open>UnreachableLifetimeCompletion\<close>

text \<open>
  \<open>BasicBlockSetVector\<close> and \<open>ValueSetVector\<close> keep insertion order and hold an
  element once; \<open>insert\<close> appends an element that is not there yet.
\<close>

definition insert_SetVector :: "'a \<Rightarrow> 'a list \<Rightarrow> 'a list" where
  "insert_SetVector x xs = (if x \<in> set xs then xs else xs @ [x])"

text \<open>
  The members of the class (lines 142-151). Blocks are named by their index, an
  instruction by its block and its index there. The two members that share a name
  with a member of \<open>OSSALifetimeCompletion\<close> carry a suffix.
\<close>

record UnreachableLifetimeCompletion =
  function_U :: SILFunction
  domInfo_U :: "DominanceInfo option"
  unreachableBlocks :: "nat list"
  unreachableInsts :: "(nat \<times> nat) set"
  incompleteValues :: "SILValue list"
  updatingLifetimes :: bool

text \<open>
  The constructor (lines 154-156). Its initialiser list does not mention \<open>domInfo\<close>,
  which keeps its default \<open>nullptr\<close>; \<open>updatingLifetimes\<close> starts as \<open>false\<close>.
\<close>

definition UnreachableLifetimeCompletion_init ::
  "SILFunction \<Rightarrow> DominanceInfo option \<Rightarrow> UnreachableLifetimeCompletion" where
  "UnreachableLifetimeCompletion_init f d =
     \<lparr>function_U = f, domInfo_U = None, unreachableBlocks = [], unreachableInsts = {},
      incompleteValues = [], updatingLifetimes = False\<rparr>"

text \<open>Lines 165-167.\<close>

definition visitUnreachableBlock ::
  "nat \<Rightarrow> UnreachableLifetimeCompletion \<Rightarrow> UnreachableLifetimeCompletion" where
  "visitUnreachableBlock block u =
     u\<lparr>unreachableBlocks := insert_SetVector block (unreachableBlocks u)\<rparr>"

subsection \<open>The availability boundary\<close>

text \<open>Lines 118-121.\<close>

datatype AllowLeaks_t = AllowLeaks | DoNotAllowLeaks

text \<open>
  Modelled from the spec: \<open>SSAPrunedLiveness\<close> is declared outside the sources. It is
  the "precomputed liveness result" of the liveness oracle (sections 4.1 and 6). What
  the boundary walk takes from it are the candidate positions of the Availability rule
  ("one ending per newly-live-out frontier block"), each a block and the index of the
  instruction there that an ending would go in front of.
\<close>

record SSAPrunedLiveness =
  availabilityCandidates :: "(nat \<times> nat) list"

text \<open>
  Modelled from the spec: a dead-end block is one "whose terminator is a
  guaranteed-non-returning operation" (section 3); the header's comment on
  \<open>AvailabilityWithLeaks\<close> speaks of a terminator that "isn't an unreachable". The
  terminator is the last instruction of the block.
\<close>

definition getTerminator :: "SILBasicBlock \<Rightarrow> SILInstruction option" where
  "getTerminator b = (if insts b = [] then None else Some (last (insts b)))"

definition isDeadEnd :: "SILFunction \<Rightarrow> nat \<Rightarrow> bool" where
  "isDeadEnd f b =
     (b < length (blocks f) \<and> getTerminator (blocks f ! b) = Some (TermInst UnreachableInst))"

text \<open>
  Modelled from the spec: the body of \<open>visitAvailabilityBoundary\<close> (declared at lines
  123-126) is not in the sources. Section 4.1: it "walks the liveness boundary and
  invokes visitFn once per instruction position that qualifies as an availability
  boundary under the allowLeaks flag"; the policy table: AvailabilityWithLeaks is the
  "same as Availability, except: a candidate block whose terminator is not a
  guaranteed-dead-end is skipped"; section 9: the policies differ "only in a
  per-candidate-block predicate". The function is reached through the value in the
  source and is an argument here.
\<close>

definition qualifies :: "SILFunction \<Rightarrow> AllowLeaks_t \<Rightarrow> nat \<times> nat \<Rightarrow> bool" where
  "qualifies f allowLeaks position =
     (case allowLeaks of
        DoNotAllowLeaks \<Rightarrow> True
      | AllowLeaks \<Rightarrow> isDeadEnd f (fst position))"

definition visitAvailabilityBoundary ::
  "SILFunction \<Rightarrow> SILValue \<Rightarrow> AllowLeaks_t \<Rightarrow> SSAPrunedLiveness
     \<Rightarrow> (nat \<times> nat \<Rightarrow> 'a \<Rightarrow> 'a) \<Rightarrow> 'a \<Rightarrow> 'a" where
  "visitAvailabilityBoundary f value allowLeaks liveness visit acc =
     fold visit (remdups (filter (qualifies f allowLeaks) (availabilityCandidates liveness))) acc"

text \<open>
  The positions the walk visits, in order: the walk run with a visitor that records
  its argument.
\<close>

definition visitedPositions ::
  "SILFunction \<Rightarrow> SILValue \<Rightarrow> AllowLeaks_t \<Rightarrow> SSAPrunedLiveness \<Rightarrow> (nat \<times> nat) list" where
  "visitedPositions f value allowLeaks liveness =
     visitAvailabilityBoundary f value allowLeaks liveness (\<lambda>position ps. ps @ [position]) []"

text \<open>
  Modelled from the spec: the engine's mutation step is built on the walk (section 4.1)
  and inserts a lifetime-ending instruction at each visited position (section 6). An
  instruction pointer stays valid while others are inserted, so the indices all refer to
  the block as it was before the step: an ending goes in front of each instruction of
  the block whose index was visited.
\<close>

fun insertBefore :: "SILValue \<Rightarrow> nat list \<Rightarrow> nat \<Rightarrow> SILInstruction list \<Rightarrow> SILInstruction list" where
  "insertBefore v idxs n [] = []"
| "insertBefore v idxs n (x # xs) =
     (if n \<in> set idxs then EndLifetimeInst v # x # insertBefore v idxs (Suc n) xs
      else x # insertBefore v idxs (Suc n) xs)"

fun insertInBlocks ::
  "SILValue \<Rightarrow> (nat \<times> nat) list \<Rightarrow> nat \<Rightarrow> SILBasicBlock list \<Rightarrow> SILBasicBlock list" where
  "insertInBlocks v ps n [] = []"
| "insertInBlocks v ps n (b # bs) =
     b\<lparr>insts := insertBefore v (map snd (filter (\<lambda>p. fst p = n) ps)) 0 (insts b)\<rparr>
       # insertInBlocks v ps (Suc n) bs"

definition endLifetimeAtAvailabilityBoundary ::
  "SILValue \<Rightarrow> AllowLeaks_t \<Rightarrow> SSAPrunedLiveness \<Rightarrow> SILFunction \<Rightarrow> SILFunction" where
  "endLifetimeAtAvailabilityBoundary value allowLeaks liveness f =
     f\<lparr>blocks := insertInBlocks value (visitedPositions f value allowLeaks liveness) 0 (blocks f)\<rparr>"

text \<open>
  Modelled from the spec: several completions under one policy, one after the other,
  each with its own liveness result. Section 4.1 (Recursion): the nested borrow scopes
  of a value are completed first, then the value.
\<close>

fun endLifetimes ::
  "AllowLeaks_t \<Rightarrow> (SILValue \<times> SSAPrunedLiveness) list \<Rightarrow> SILFunction \<Rightarrow> SILFunction" where
  "endLifetimes allowLeaks [] f = f"
| "endLifetimes allowLeaks ((value, liveness) # rest) f =
     endLifetimes allowLeaks rest (endLifetimeAtAvailabilityBoundary value allowLeaks liveness f)"

subsection \<open>Fixtures\<close>

text \<open>Concrete values, one per way through the dispatch.\<close>

definition trivialValue :: SILValue where
  "trivialValue = \<lparr>valueID = 0, ownershipKind = None_kind, borrowIntroducer = False,
     localScope = False, lexical = False\<rparr>"

definition ownedValue :: SILValue where
  "ownedValue = \<lparr>valueID = 1, ownershipKind = Owned, borrowIntroducer = False,
     localScope = False, lexical = False\<rparr>"

definition forwardedGuaranteed :: SILValue where
  "forwardedGuaranteed = \<lparr>valueID = 2, ownershipKind = Guaranteed, borrowIntroducer = False,
     localScope = False, lexical = False\<rparr>"

definition guaranteedArgument :: SILValue where
  "guaranteedArgument = \<lparr>valueID = 3, ownershipKind = Guaranteed, borrowIntroducer = True,
     localScope = False, lexical = False\<rparr>"

definition beginBorrow :: SILValue where
  "beginBorrow = \<lparr>valueID = 4, ownershipKind = Guaranteed, borrowIntroducer = True,
     localScope = True, lexical = False\<rparr>"

text \<open>A function that returns at once, taking \<open>guaranteedArgument\<close>.\<close>

definition returnOnly :: SILFunction where
  "returnOnly = \<lparr>args = [guaranteedArgument],
     blocks = [\<lparr>insts = [TermInst ReturnInst], succs = []\<rparr>]\<rparr>"

definition lexicalOwned :: SILValue where
  "lexicalOwned = \<lparr>valueID = 5, ownershipKind = Owned, borrowIntroducer = False,
     localScope = False, lexical = True\<rparr>"

text \<open>
  A stand-in for \<open>analyzeAndUpdateLifetime\<close> that works on the entry block alone. Along
  Liveness it ends the value's lifetime right after its last use in the block (after
  its definition when the block does not use it, at the head of the block when it does
  not define it either); along the two availability boundaries it ends it just before
  the block's terminator. It reports the insertion.
\<close>

fun endAfter :: "SILInstruction \<Rightarrow> SILValue \<Rightarrow> SILInstruction list \<Rightarrow> SILInstruction list" where
  "endAfter a value [] = []"
| "endAfter a value (i # rest) =
     (if a \<in> set rest then i # endAfter a value rest
      else if i = a then i # EndLifetimeInst value # rest
      else i # rest)"

definition endAfterLastUse :: "SILValue \<Rightarrow> SILInstruction list \<Rightarrow> SILInstruction list" where
  "endAfterLastUse value instructions =
     (if UseInst value \<in> set instructions then endAfter (UseInst value) value instructions
      else if DefInst value \<in> set instructions then endAfter (DefInst value) value instructions
      else EndLifetimeInst value # instructions)"

definition endBeforeTerminator :: "SILValue \<Rightarrow> SILInstruction list \<Rightarrow> SILInstruction list" where
  "endBeforeTerminator value instructions =
     (case rev instructions of
        [] \<Rightarrow> [EndLifetimeInst value]
      | t # r \<Rightarrow> rev r @ [EndLifetimeInst value, t])"

definition endInBlock :: "SILValue \<Rightarrow> Boundary \<Rightarrow> SILInstruction list \<Rightarrow> SILInstruction list" where
  "endInBlock value boundary instructions =
     (case boundary of
        Liveness \<Rightarrow> endAfterLastUse value instructions
      | Availability \<Rightarrow> endBeforeTerminator value instructions
      | AvailabilityWithLeaks \<Rightarrow> endBeforeTerminator value instructions)"

definition analyzeEntryBlock :: analyzeFn where
  "analyzeEntryBlock value boundary s =
     (True, s\<lparr>silFunction := (silFunction s)\<lparr>blocks :=
        (case blocks (silFunction s) of
           [] \<Rightarrow> []
         | b # bs \<Rightarrow> b\<lparr>insts := endInBlock value boundary (insts b)\<rparr> # bs)\<rparr>\<rparr>)"

text \<open>
  A stand-in with one level of nesting: it first completes the given nested borrow
  scopes through \<open>completeOSSALifetime\<close>, along the same boundary, and then ends the
  value as \<open>analyzeEntryBlock\<close> does.
\<close>

definition analyzeWithNested :: "SILValue list \<Rightarrow> analyzeFn" where
  "analyzeWithNested nested value boundary s =
     analyzeEntryBlock value boundary
       (snd (completeAll analyzeEntryBlock (map (\<lambda>u. (u, boundary)) nested) s))"

text \<open>A fixup object on which \<open>completeLifetimes\<close> has set its flag.\<close>

definition usedFixup :: UnreachableLifetimeCompletion where
  "usedFixup = (UnreachableLifetimeCompletion_init returnOnly None)\<lparr>updatingLifetimes := True\<rparr>"

text \<open>
  The scenario of the specification's section 8: blocks Entry (0), A (1), Exit (2) and
  the dead-end block B (3); \<open>ownedValue\<close> is defined in Entry and used in A. Its
  availability candidates are the start of Exit and the point just before B's
  terminator.
\<close>

definition scenario :: SILFunction where
  "scenario = \<lparr>args = [],
     blocks = [\<lparr>insts = [DefInst ownedValue, TermInst BranchInst], succs = [1, 3]\<rparr>,
               \<lparr>insts = [UseInst ownedValue, TermInst BranchInst], succs = [2]\<rparr>,
               \<lparr>insts = [TermInst ReturnInst], succs = []\<rparr>,
               \<lparr>insts = [TermInst UnreachableInst], succs = []\<rparr>]\<rparr>"

definition scenarioLiveness :: SSAPrunedLiveness where
  "scenarioLiveness = \<lparr>availabilityCandidates = [(2, 0), (3, 0)]\<rparr>"

section \<open>Properties\<close>

subsection \<open>The dispatch on ownership\<close>

lemma completeOSSALifetime_None_kind:
  "getOwnershipKind value = None_kind \<Longrightarrow>
     completeOSSALifetime A value boundary s = (NoLifetime, s)"
  by (simp add: completeOSSALifetime_def)

lemma completeOSSALifetime_not_introducer:
  "getOwnershipKind value \<noteq> Owned \<Longrightarrow> BorrowedValue value = None \<Longrightarrow>
     completeOSSALifetime A value boundary s = (NoLifetime, s)"
  by (simp add: completeOSSALifetime_def)

lemma BorrowedValue_Some_kind:
  "BorrowedValue value = Some bv \<Longrightarrow> getOwnershipKind value = Guaranteed \<and> bv = value"
  by (auto simp: BorrowedValue_def getOwnershipKind_def split: if_splits)

lemma completeOSSALifetime_not_local:
  assumes "BorrowedValue value = Some bv" and "\<not> isLocalScope bv"
  shows "completeOSSALifetime A value boundary s = (AlreadyComplete, s)"
proof -
  from assms(1) have "getOwnershipKind value = Guaranteed"
    by (simp add: BorrowedValue_Some_kind)
  with assms show ?thesis
    by (simp add: completeOSSALifetime_def)
qed

text \<open>
  C2. \<open>completeOSSALifetime\<close> dispatches on the ownership kind: a value of kind None
  gives NoLifetime; a value that is not Owned and is not a borrow introducer gives
  NoLifetime; a borrow introducer that is not locally scoped gives AlreadyComplete.
  In each of the three cases the state comes back as it went in: nothing is added to
  \<open>completedValues\<close>, the function body is untouched, and this holds whatever
  \<open>analyzeAndUpdateLifetime\<close> would do, since it is not reached.
\<close>

theorem completeOSSALifetime_dispatch:
  "(getOwnershipKind value = None_kind \<longrightarrow>
      completeOSSALifetime A value boundary s = (NoLifetime, s)) \<and>
   (getOwnershipKind value \<noteq> Owned \<and> BorrowedValue value = None \<longrightarrow>
      completeOSSALifetime A value boundary s = (NoLifetime, s)) \<and>
   (\<forall>bv. BorrowedValue value = Some bv \<and> \<not> isLocalScope bv \<longrightarrow>
      completeOSSALifetime A value boundary s = (AlreadyComplete, s))"
proof (intro conjI impI allI)
  assume "getOwnershipKind value = None_kind"
  then show "completeOSSALifetime A value boundary s = (NoLifetime, s)"
    by (rule completeOSSALifetime_None_kind)
next
  assume "getOwnershipKind value \<noteq> Owned \<and> BorrowedValue value = None"
  then show "completeOSSALifetime A value boundary s = (NoLifetime, s)"
    by (simp add: completeOSSALifetime_not_introducer)
next
  fix bv
  assume "BorrowedValue value = Some bv \<and> \<not> isLocalScope bv"
  then show "completeOSSALifetime A value boundary s = (AlreadyComplete, s)"
    by (simp add: completeOSSALifetime_not_local)
qed

theorem completeOSSALifetime_dispatch_witness:
  "completeOSSALifetime analyzeEntryBlock trivialValue Availability
      (OSSALifetimeCompletion_init returnOnly None)
     = (NoLifetime, OSSALifetimeCompletion_init returnOnly None) \<and>
   completeOSSALifetime analyzeEntryBlock forwardedGuaranteed Liveness
      (OSSALifetimeCompletion_init returnOnly None)
     = (NoLifetime, OSSALifetimeCompletion_init returnOnly None) \<and>
   completeOSSALifetime analyzeEntryBlock guaranteedArgument AvailabilityWithLeaks
      (OSSALifetimeCompletion_init returnOnly None)
     = (AlreadyComplete, OSSALifetimeCompletion_init returnOnly None)"
proof -
  have k0: "getOwnershipKind trivialValue = None_kind"
    by (simp add: getOwnershipKind_def trivialValue_def)
  have k2: "getOwnershipKind forwardedGuaranteed \<noteq> Owned \<and>
            BorrowedValue forwardedGuaranteed = None"
    by (simp add: getOwnershipKind_def BorrowedValue_def forwardedGuaranteed_def)
  have k3: "BorrowedValue guaranteedArgument = Some guaranteedArgument \<and>
            \<not> isLocalScope guaranteedArgument"
    by (simp add: BorrowedValue_def isLocalScope_def guaranteedArgument_def)
  from k0 k2 k3
    completeOSSALifetime_dispatch [of trivialValue analyzeEntryBlock Availability
      "OSSALifetimeCompletion_init returnOnly None"]
    completeOSSALifetime_dispatch [of forwardedGuaranteed analyzeEntryBlock Liveness
      "OSSALifetimeCompletion_init returnOnly None"]
    completeOSSALifetime_dispatch [of guaranteedArgument analyzeEntryBlock AvailabilityWithLeaks
      "OSSALifetimeCompletion_init returnOnly None"]
  show ?thesis by blast
qed

subsection \<open>Owned values always have a lifetime\<close>

text \<open>
  C9. For a value whose ownership kind is Owned, \<open>completeOSSALifetime\<close> never
  returns NoLifetime: the result is AlreadyComplete or WasCompleted, for every
  boundary, every state and every \<open>analyzeAndUpdateLifetime\<close>.
\<close>

theorem completeOSSALifetime_Owned:
  assumes "getOwnershipKind value = Owned"
  shows "fst (completeOSSALifetime A value boundary s) \<noteq> NoLifetime \<and>
         fst (completeOSSALifetime A value boundary s) \<in> {AlreadyComplete, WasCompleted}"
proof (cases "value \<in> completedValues s")
  case True
  with assms show ?thesis
    by (simp add: completeOSSALifetime_def insert_ValueSet_def)
next
  case False
  with assms show ?thesis
    by (simp add: completeOSSALifetime_def insert_ValueSet_def split: prod.split)
qed

theorem completeOSSALifetime_Owned_witness:
  "fst (completeOSSALifetime analyzeEntryBlock ownedValue Liveness
          (OSSALifetimeCompletion_init returnOnly None)) \<noteq> NoLifetime \<and>
   fst (completeOSSALifetime analyzeEntryBlock ownedValue Liveness
          (OSSALifetimeCompletion_init returnOnly None)) \<in> {AlreadyComplete, WasCompleted}"
proof -
  have "getOwnershipKind ownedValue = Owned"
    by (simp add: getOwnershipKind_def ownedValue_def)
  then show ?thesis
    by (rule completeOSSALifetime_Owned)
qed

subsection \<open>Memoization\<close>

lemma eligible_kind: "eligible value \<Longrightarrow> getOwnershipKind value \<noteq> None_kind"
  by (auto simp: eligible_def BorrowedValue_def getOwnershipKind_def split: if_splits)

lemma completeOSSALifetime_memo_hit:
  assumes "eligible value" and "value \<in> completedValues s"
  shows "completeOSSALifetime A value boundary s = (AlreadyComplete, s)"
proof -
  have same: "s\<lparr>completedValues := insert value (completedValues s)\<rparr> = s"
    using assms(2) by (simp add: insert_absorb)
  from assms(1) have "getOwnershipKind value \<noteq> None_kind"
    by (rule eligible_kind)
  with assms same show ?thesis
    by (auto simp: completeOSSALifetime_def insert_ValueSet_def eligible_def
             split: option.splits)
qed

lemma completeOSSALifetime_fresh:
  assumes "eligible value" and "value \<notin> completedValues s"
  shows "completeOSSALifetime A value boundary s =
           (case A value boundary (s\<lparr>completedValues := insert value (completedValues s)\<rparr>) of
              (changed, s') \<Rightarrow> (if changed then WasCompleted else AlreadyComplete, s'))"
proof -
  from assms(1) have "getOwnershipKind value \<noteq> None_kind"
    by (rule eligible_kind)
  with assms show ?thesis
    by (auto simp: completeOSSALifetime_def insert_ValueSet_def eligible_def
             split: option.splits)
qed

lemma completeOSSALifetime_not_eligible:
  assumes "\<not> eligible value"
  shows "snd (completeOSSALifetime A value boundary s) = s \<and>
         fst (completeOSSALifetime A value boundary s) \<noteq> WasCompleted"
  using assms
  by (auto simp: completeOSSALifetime_def eligible_def split: option.splits)

lemma WasCompleted_eligible:
  "fst (completeOSSALifetime A value boundary s) = WasCompleted \<Longrightarrow> eligible value"
  using completeOSSALifetime_not_eligible by blast

lemma keepsCompletedD:
  "keepsCompleted A \<Longrightarrow> completedValues t \<subseteq> completedValues (snd (A u b t))"
  by (simp add: keepsCompleted_def)

lemma completeOSSALifetime_fresh_snd:
  assumes "eligible value" and "value \<notin> completedValues s"
  shows "snd (completeOSSALifetime A value boundary s) =
           snd (A value boundary (s\<lparr>completedValues := insert value (completedValues s)\<rparr>))"
  using assms by (simp add: completeOSSALifetime_fresh split_beta)

lemma completeOSSALifetime_mono:
  assumes "keepsCompleted A"
  shows "completedValues s \<subseteq> completedValues (snd (completeOSSALifetime A value boundary s))"
proof (cases "eligible value")
  case False
  then show ?thesis by (simp add: completeOSSALifetime_not_eligible)
next
  case True
  show ?thesis
  proof (cases "value \<in> completedValues s")
    case True
    with \<open>eligible value\<close> show ?thesis by (simp add: completeOSSALifetime_memo_hit)
  next
    case False
    let ?t = "s\<lparr>completedValues := insert value (completedValues s)\<rparr>"
    have "completedValues ?t \<subseteq> completedValues (snd (A value boundary ?t))"
      using assms by (rule keepsCompletedD)
    then have "completedValues s \<subseteq> completedValues (snd (A value boundary ?t))"
      by auto
    with False \<open>eligible value\<close> show ?thesis
      by (simp add: completeOSSALifetime_fresh_snd)
  qed
qed

lemma completeOSSALifetime_memoizes:
  assumes "keepsCompleted A" and "eligible value"
  shows "value \<in> completedValues (snd (completeOSSALifetime A value boundary s))"
proof (cases "value \<in> completedValues s")
  case True
  with assms(2) show ?thesis by (simp add: completeOSSALifetime_memo_hit)
next
  case False
  let ?t = "s\<lparr>completedValues := insert value (completedValues s)\<rparr>"
  have "completedValues ?t \<subseteq> completedValues (snd (A value boundary ?t))"
    using assms(1) by (rule keepsCompletedD)
  then have "value \<in> completedValues (snd (A value boundary ?t))"
    by auto
  with False assms(2) show ?thesis
    by (simp add: completeOSSALifetime_fresh_snd)
qed

lemma completeAll_Cons_fst:
  "fst (completeAll A ((v, b) # calls) s) =
     fst (completeOSSALifetime A v b s)
       # fst (completeAll A calls (snd (completeOSSALifetime A v b s)))"
  by (simp add: split_beta)

lemma completeAll_Cons_snd:
  "snd (completeAll A ((v, b) # calls) s) =
     snd (completeAll A calls (snd (completeOSSALifetime A v b s)))"
  by (simp add: split_beta)

lemma completeAll_mono:
  assumes "keepsCompleted A"
  shows "completedValues s \<subseteq> completedValues (snd (completeAll A calls s))"
proof (induction calls arbitrary: s)
  case Nil
  show ?case by simp
next
  case (Cons c calls)
  obtain v b where c: "c = (v, b)" by (cases c)
  let ?s' = "snd (completeOSSALifetime A v b s)"
  have "completedValues s \<subseteq> completedValues ?s'"
    by (rule completeOSSALifetime_mono [OF assms])
  also have "\<dots> \<subseteq> completedValues (snd (completeAll A calls ?s'))"
    by (rule Cons.IH)
  finally show ?case
    unfolding c completeAll_Cons_snd .
qed

lemma wasCompletedCalls_Cons:
  "wasCompletedCalls value ((v, b) # calls) (r # rs) =
     (if v = value \<and> r = WasCompleted then [((v, b), r)] else [])
       @ wasCompletedCalls value calls rs"
  by (simp add: wasCompletedCalls_def)

lemma completeAll_memoized_quiet:
  assumes "keepsCompleted A" and "eligible value" and "value \<in> completedValues s"
  shows "wasCompletedCalls value calls (fst (completeAll A calls s)) = []"
  using assms(3)
proof (induction calls arbitrary: s)
  case Nil
  show ?case by (simp add: wasCompletedCalls_def)
next
  case (Cons c calls)
  obtain v b where c: "c = (v, b)" by (cases c)
  let ?s' = "snd (completeOSSALifetime A v b s)"
  have "completedValues s \<subseteq> completedValues ?s'"
    by (rule completeOSSALifetime_mono [OF assms(1)])
  with Cons.prems have "value \<in> completedValues ?s'" by blast
  then have rest: "wasCompletedCalls value calls (fst (completeAll A calls ?s')) = []"
    by (rule Cons.IH)
  have here: "v = value \<Longrightarrow> fst (completeOSSALifetime A v b s) \<noteq> WasCompleted"
    using completeOSSALifetime_memo_hit [OF assms(2) Cons.prems, of A b] by simp
  from rest here show ?case
    unfolding c completeAll_Cons_fst wasCompletedCalls_Cons by auto
qed

lemma processed_stays_complete:
  assumes "keepsCompleted A" and "eligible value"
  shows "completeOSSALifetime A value boundary'
           (snd (completeAll A later (snd (completeOSSALifetime A value boundary s))))
         = (AlreadyComplete,
            snd (completeAll A later (snd (completeOSSALifetime A value boundary s))))"
proof -
  let ?s1 = "snd (completeOSSALifetime A value boundary s)"
  let ?s2 = "snd (completeAll A later ?s1)"
  have "value \<in> completedValues ?s1"
    by (rule completeOSSALifetime_memoizes [OF assms])
  moreover have "completedValues ?s1 \<subseteq> completedValues ?s2"
    by (rule completeAll_mono [OF assms(1)])
  ultimately have "value \<in> completedValues ?s2" by blast
  with assms(2) show ?thesis
    by (rule completeOSSALifetime_memo_hit)
qed

lemma wasCompleted_at_most_once:
  assumes "keepsCompleted A"
  shows "length (wasCompletedCalls value calls (fst (completeAll A calls s))) \<le> 1"
proof (induction calls arbitrary: s)
  case Nil
  show ?case by (simp add: wasCompletedCalls_def)
next
  case (Cons c calls)
  obtain v b where c: "c = (v, b)" by (cases c)
  let ?r = "fst (completeOSSALifetime A v b s)"
  let ?s' = "snd (completeOSSALifetime A v b s)"
  show ?case
  proof (cases "v = value \<and> ?r = WasCompleted")
    case True
    then have el: "eligible value"
      using WasCompleted_eligible [of A v b s] by auto
    have "value \<in> completedValues ?s'"
      using completeOSSALifetime_memoizes [OF assms el, of b s] True by auto
    then have "wasCompletedCalls value calls (fst (completeAll A calls ?s')) = []"
      by (rule completeAll_memoized_quiet [OF assms el])
    then show ?thesis
      unfolding c completeAll_Cons_fst wasCompletedCalls_Cons by simp
  next
    case False
    have "length (wasCompletedCalls value calls (fst (completeAll A calls ?s'))) \<le> 1"
      by (rule Cons.IH)
    with False show ?thesis
      unfolding c completeAll_Cons_fst wasCompletedCalls_Cons by auto
  qed
qed

text \<open>
  C3. \<open>completeOSSALifetime\<close> is idempotent per engine instance. In any sequence of
  calls on one engine (calls on other values may come in between, and the boundary may
  differ from call to call), at most one call on a value returns WasCompleted. Once a
  call on the value has returned WasCompleted, and more generally once a value that is
  Owned or a locally scoped borrow introducer has been processed, the value is in
  \<open>completedValues\<close>, and after any further calls a call on it returns AlreadyComplete
  and hands the state back as it was: no instruction is created, nothing is
  reprocessed. The one thing asked of \<open>analyzeAndUpdateLifetime\<close>, whose body is not in
  the header, is that it never takes a value out of \<open>completedValues\<close>.
\<close>

theorem completeOSSALifetime_idempotent:
  assumes "keepsCompleted A"
  shows "length (wasCompletedCalls value calls (fst (completeAll A calls s))) \<le> 1 \<and>
         (fst (completeOSSALifetime A value boundary s) = WasCompleted \<longrightarrow>
            (\<forall>later boundary'.
               completeOSSALifetime A value boundary'
                 (snd (completeAll A later (snd (completeOSSALifetime A value boundary s))))
               = (AlreadyComplete,
                  snd (completeAll A later (snd (completeOSSALifetime A value boundary s)))))) \<and>
         (eligible value \<longrightarrow>
            (\<forall>later boundary'.
               completeOSSALifetime A value boundary'
                 (snd (completeAll A later (snd (completeOSSALifetime A value boundary s))))
               = (AlreadyComplete,
                  snd (completeAll A later (snd (completeOSSALifetime A value boundary s))))))"
proof (intro conjI impI allI)
  show "length (wasCompletedCalls value calls (fst (completeAll A calls s))) \<le> 1"
    using assms by (rule wasCompleted_at_most_once)
next
  fix later boundary'
  assume "fst (completeOSSALifetime A value boundary s) = WasCompleted"
  then have "eligible value"
    by (rule WasCompleted_eligible)
  with assms show "completeOSSALifetime A value boundary'
           (snd (completeAll A later (snd (completeOSSALifetime A value boundary s))))
         = (AlreadyComplete,
            snd (completeAll A later (snd (completeOSSALifetime A value boundary s))))"
    by (rule processed_stays_complete)
next
  fix later boundary'
  assume "eligible value"
  with assms show "completeOSSALifetime A value boundary'
           (snd (completeAll A later (snd (completeOSSALifetime A value boundary s))))
         = (AlreadyComplete,
            snd (completeAll A later (snd (completeOSSALifetime A value boundary s))))"
    by (rule processed_stays_complete)
qed

lemmas value_defs =
  trivialValue_def ownedValue_def forwardedGuaranteed_def guaranteedArgument_def
  beginBorrow_def lexicalOwned_def

lemmas dispatch_defs =
  completeOSSALifetime_def getOwnershipKind_def BorrowedValue_def isLocalScope_def
  insert_ValueSet_def

lemma keepsCompleted_analyzeEntryBlock: "keepsCompleted analyzeEntryBlock"
  by (simp add: keepsCompleted_def analyzeEntryBlock_def)

lemma completedValues_analyzeEntryBlock:
  "completedValues (snd (analyzeEntryBlock value boundary s)) = completedValues s"
  by (simp add: analyzeEntryBlock_def)

lemma keepsCompleted_analyzeWithNested: "keepsCompleted (analyzeWithNested nested)"
  unfolding keepsCompleted_def analyzeWithNested_def completedValues_analyzeEntryBlock
  using completeAll_mono [OF keepsCompleted_analyzeEntryBlock] by blast

lemma complete_ownedValue_nested:
  "completeOSSALifetime (analyzeWithNested [beginBorrow]) ownedValue Liveness
     (OSSALifetimeCompletion_init returnOnly None)
   = (WasCompleted,
      \<lparr>domInfo = None, completedValues = {ownedValue, beginBorrow},
       silFunction = \<lparr>args = [guaranteedArgument],
         blocks = [\<lparr>insts = [EndLifetimeInst ownedValue, EndLifetimeInst beginBorrow,
                              TermInst ReturnInst],
                    succs = []\<rparr>]\<rparr>\<rparr>)"
  by (simp add: dispatch_defs value_defs analyzeWithNested_def analyzeEntryBlock_def
        endInBlock_def endAfterLastUse_def OSSALifetimeCompletion_init_def returnOnly_def
        insert_commute)

theorem completeOSSALifetime_idempotent_witness:
  "keepsCompleted (analyzeWithNested [beginBorrow]) \<and>
   eligible ownedValue \<and>
   completeOSSALifetime (analyzeWithNested [beginBorrow]) ownedValue Liveness
     (OSSALifetimeCompletion_init returnOnly None)
   = (WasCompleted,
      \<lparr>domInfo = None, completedValues = {ownedValue, beginBorrow},
       silFunction = \<lparr>args = [guaranteedArgument],
         blocks = [\<lparr>insts = [EndLifetimeInst ownedValue, EndLifetimeInst beginBorrow,
                              TermInst ReturnInst],
                    succs = []\<rparr>]\<rparr>\<rparr>) \<and>
   length (wasCompletedCalls ownedValue
      [(ownedValue, Liveness), (beginBorrow, Availability), (ownedValue, Availability)]
      (fst (completeAll (analyzeWithNested [beginBorrow])
         [(ownedValue, Liveness), (beginBorrow, Availability), (ownedValue, Availability)]
         (OSSALifetimeCompletion_init returnOnly None)))) \<le> 1 \<and>
   completeOSSALifetime (analyzeWithNested [beginBorrow]) ownedValue Availability
     (snd (completeAll (analyzeWithNested [beginBorrow]) [(beginBorrow, Availability)]
        (snd (completeOSSALifetime (analyzeWithNested [beginBorrow]) ownedValue Liveness
           (OSSALifetimeCompletion_init returnOnly None)))))
   = (AlreadyComplete,
      snd (completeAll (analyzeWithNested [beginBorrow]) [(beginBorrow, Availability)]
        (snd (completeOSSALifetime (analyzeWithNested [beginBorrow]) ownedValue Liveness
           (OSSALifetimeCompletion_init returnOnly None)))))"
proof -
  have first: "fst (completeOSSALifetime (analyzeWithNested [beginBorrow]) ownedValue Liveness
                 (OSSALifetimeCompletion_init returnOnly None)) = WasCompleted"
    by (simp add: complete_ownedValue_nested)
  have el: "eligible ownedValue"
    by (simp add: eligible_def getOwnershipKind_def ownedValue_def)
  from keepsCompleted_analyzeWithNested [of "[beginBorrow]"] first el
    complete_ownedValue_nested
    completeOSSALifetime_idempotent [of "analyzeWithNested [beginBorrow]" ownedValue
         "[(ownedValue, Liveness), (beginBorrow, Availability), (ownedValue, Availability)]"
         "OSSALifetimeCompletion_init returnOnly None" Liveness,
       OF keepsCompleted_analyzeWithNested]
  show ?thesis by blast
qed

subsection \<open>What \<open>completedValues\<close> holds\<close>

lemma onlyEligible_step:
  assumes "addsOnlyEligible A" and "onlyEligible s"
  shows "onlyEligible (snd (completeOSSALifetime A value boundary s))"
proof (cases "eligible value")
  case False
  with assms(2) show ?thesis by (simp add: completeOSSALifetime_not_eligible)
next
  case True
  show ?thesis
  proof (cases "value \<in> completedValues s")
    case True
    with \<open>eligible value\<close> assms(2) show ?thesis
      by (simp add: completeOSSALifetime_memo_hit)
  next
    case False
    let ?t = "s\<lparr>completedValues := insert value (completedValues s)\<rparr>"
    have t: "onlyEligible ?t"
      using assms(2) \<open>eligible value\<close> by (simp add: onlyEligible_def)
    have "\<forall>w \<in> completedValues (snd (A value boundary ?t)).
            w \<in> completedValues ?t \<or> eligible w"
      using assms(1) unfolding addsOnlyEligible_def by blast
    with t have "onlyEligible (snd (A value boundary ?t))"
      unfolding onlyEligible_def by blast
    with False \<open>eligible value\<close> show ?thesis
      by (simp add: completeOSSALifetime_fresh_snd)
  qed
qed

lemma onlyEligible_completeAll:
  assumes "addsOnlyEligible A"
  shows "onlyEligible s \<Longrightarrow> onlyEligible (snd (completeAll A calls s))"
proof (induction calls arbitrary: s)
  case Nil
  then show ?case by simp
next
  case (Cons c calls)
  obtain v b where c: "c = (v, b)" by (cases c)
  have "onlyEligible (snd (completeOSSALifetime A v b s))"
    using assms Cons.prems by (rule onlyEligible_step)
  then have "onlyEligible (snd (completeAll A calls (snd (completeOSSALifetime A v b s))))"
    by (rule Cons.IH)
  then show ?case
    unfolding c completeAll_Cons_snd .
qed

lemma eligible_iff:
  "eligible w \<longleftrightarrow>
     getOwnershipKind w \<noteq> None_kind \<and>
     (getOwnershipKind w = Owned \<or> (BorrowedValue w = Some w \<and> isLocalScope w))"
  by (auto simp: eligible_def BorrowedValue_def getOwnershipKind_def split: if_splits)

text \<open>
  C10. An invariant of every engine instance: \<open>completedValues\<close> only ever holds values
  that are Owned or borrow introducers with a local scope. The set is empty when the
  engine is built; \<open>completeOSSALifetime\<close> itself inserts only at line 110, which a
  value of kind None, a value that is not a borrow introducer and a borrow introducer
  without a local scope never reach (for these the whole state comes back unchanged);
  and the invariant holds after every sequence of calls, provided the values that
  \<open>analyzeAndUpdateLifetime\<close> adds in turn are of that sort.
\<close>

theorem completedValues_onlyEligible:
  assumes "addsOnlyEligible A"
  shows "onlyEligible (OSSALifetimeCompletion_init f d) \<and>
         (\<forall>w \<in> completedValues (snd (completeAll A calls (OSSALifetimeCompletion_init f d))).
            getOwnershipKind w \<noteq> None_kind \<and>
            (getOwnershipKind w = Owned \<or> (BorrowedValue w = Some w \<and> isLocalScope w))) \<and>
         (onlyEligible s \<longrightarrow> onlyEligible (snd (completeOSSALifetime A value boundary s))) \<and>
         (\<not> eligible value \<longrightarrow> snd (completeOSSALifetime A value boundary s) = s)"
proof (intro conjI impI)
  show init: "onlyEligible (OSSALifetimeCompletion_init f d)"
    by (simp add: onlyEligible_def OSSALifetimeCompletion_init_def)
  have "onlyEligible (snd (completeAll A calls (OSSALifetimeCompletion_init f d)))"
    using assms init by (rule onlyEligible_completeAll)
  then show "\<forall>w \<in> completedValues (snd (completeAll A calls (OSSALifetimeCompletion_init f d))).
            getOwnershipKind w \<noteq> None_kind \<and>
            (getOwnershipKind w = Owned \<or> (BorrowedValue w = Some w \<and> isLocalScope w))"
    unfolding onlyEligible_def eligible_iff .
next
  assume "onlyEligible s"
  with assms show "onlyEligible (snd (completeOSSALifetime A value boundary s))"
    by (rule onlyEligible_step)
next
  assume "\<not> eligible value"
  then show "snd (completeOSSALifetime A value boundary s) = s"
    by (simp add: completeOSSALifetime_not_eligible)
qed

lemma completeOSSALifetime_adds_eligible:
  assumes "addsOnlyEligible A" and "w \<in> completedValues (snd (completeOSSALifetime A v b s))"
  shows "w \<in> completedValues s \<or> eligible w"
proof (cases "eligible v \<and> v \<notin> completedValues s")
  case False
  have "snd (completeOSSALifetime A v b s) = s"
  proof (cases "eligible v")
    case True
    with False show ?thesis by (simp add: completeOSSALifetime_memo_hit)
  next
    case False
    then show ?thesis by (simp add: completeOSSALifetime_not_eligible)
  qed
  with assms(2) show ?thesis by simp
next
  case True
  let ?t = "s\<lparr>completedValues := insert v (completedValues s)\<rparr>"
  from True have "snd (completeOSSALifetime A v b s) = snd (A v b ?t)"
    by (simp add: completeOSSALifetime_fresh_snd)
  with assms(2) have "w \<in> completedValues (snd (A v b ?t))" by simp
  with assms(1) have "w \<in> completedValues ?t \<or> eligible w"
    unfolding addsOnlyEligible_def by blast
  with True show ?thesis by auto
qed

lemma completeAll_adds_eligible:
  assumes "addsOnlyEligible A"
  shows "w \<in> completedValues (snd (completeAll A calls s)) \<Longrightarrow>
           w \<in> completedValues s \<or> eligible w"
proof (induction calls arbitrary: s)
  case Nil
  then show ?case by simp
next
  case (Cons c calls)
  obtain v b where c: "c = (v, b)" by (cases c)
  from Cons.prems
  have "w \<in> completedValues (snd (completeAll A calls (snd (completeOSSALifetime A v b s))))"
    unfolding c completeAll_Cons_snd .
  then have "w \<in> completedValues (snd (completeOSSALifetime A v b s)) \<or> eligible w"
    by (rule Cons.IH)
  then show ?case
    using completeOSSALifetime_adds_eligible [OF assms] by blast
qed

lemma addsOnlyEligible_analyzeEntryBlock: "addsOnlyEligible analyzeEntryBlock"
  by (simp add: addsOnlyEligible_def analyzeEntryBlock_def)

lemma addsOnlyEligible_analyzeWithNested: "addsOnlyEligible (analyzeWithNested nested)"
  unfolding addsOnlyEligible_def analyzeWithNested_def completedValues_analyzeEntryBlock
  using completeAll_adds_eligible [OF addsOnlyEligible_analyzeEntryBlock] by blast

lemma eligible_fixtures:
  "eligible ownedValue" "eligible beginBorrow" "eligible lexicalOwned"
  "\<not> eligible trivialValue" "\<not> eligible forwardedGuaranteed" "\<not> eligible guaranteedArgument"
  by (simp_all add: eligible_def getOwnershipKind_def BorrowedValue_def isLocalScope_def
        value_defs)

theorem completedValues_onlyEligible_witness:
  "addsOnlyEligible (analyzeWithNested [beginBorrow]) \<and>
   completedValues (snd (completeAll (analyzeWithNested [beginBorrow])
      [(trivialValue, Liveness), (ownedValue, Liveness), (guaranteedArgument, Liveness),
       (forwardedGuaranteed, Availability)]
      (OSSALifetimeCompletion_init returnOnly None))) = {ownedValue, beginBorrow} \<and>
   eligible ownedValue \<and> eligible beginBorrow \<and>
   onlyEligible (OSSALifetimeCompletion_init returnOnly None) \<and>
   onlyEligible (snd (completeOSSALifetime (analyzeWithNested [beginBorrow]) ownedValue
          Liveness (OSSALifetimeCompletion_init returnOnly None))) \<and>
   \<not> eligible guaranteedArgument \<and>
   snd (completeOSSALifetime (analyzeWithNested [beginBorrow]) guaranteedArgument Liveness
          (OSSALifetimeCompletion_init returnOnly None))
     = OSSALifetimeCompletion_init returnOnly None"
proof -
  have run: "completedValues (snd (completeAll (analyzeWithNested [beginBorrow])
      [(trivialValue, Liveness), (ownedValue, Liveness), (guaranteedArgument, Liveness),
       (forwardedGuaranteed, Availability)]
      (OSSALifetimeCompletion_init returnOnly None))) = {ownedValue, beginBorrow}"
    by (simp add: dispatch_defs value_defs analyzeWithNested_def analyzeEntryBlock_def
          OSSALifetimeCompletion_init_def insert_commute)
  from addsOnlyEligible_analyzeWithNested [of "[beginBorrow]"] run eligible_fixtures
    completedValues_onlyEligible [of "analyzeWithNested [beginBorrow]" returnOnly None
         "[(trivialValue, Liveness), (ownedValue, Liveness), (guaranteedArgument, Liveness),
           (forwardedGuaranteed, Availability)]"
         "OSSALifetimeCompletion_init returnOnly None" ownedValue Liveness,
       OF addsOnlyEligible_analyzeWithNested]
    completedValues_onlyEligible [of "analyzeWithNested [beginBorrow]" returnOnly None
         "[]" "OSSALifetimeCompletion_init returnOnly None" guaranteedArgument Liveness,
       OF addsOnlyEligible_analyzeWithNested]
  show ?thesis by blast
qed

subsection \<open>The fixup object after \<open>completeLifetimes\<close>\<close>

text \<open>
  C8 as stated fails on the header. The claim: once \<open>completeLifetimes\<close> has run, a call
  of \<open>visitUnreachableBlock\<close> is rejected as a checked fault. \<open>visitUnreachableBlock\<close>
  (lines 165-167) has no branch that fails and never reads \<open>updatingLifetimes\<close>: on a
  fixup object whose flag is set it records the block and returns.
\<close>

theorem visitUnreachableBlock_used_counterexample:
  "updatingLifetimes usedFixup \<and>
   visitUnreachableBlock 0 usedFixup =
     \<lparr>function_U = returnOnly, domInfo_U = None, unreachableBlocks = [0],
      unreachableInsts = {}, incompleteValues = [], updatingLifetimes = True\<rparr> \<and>
   visitUnreachableBlock 0 usedFixup \<noteq> usedFixup"
  by (simp add: usedFixup_def visitUnreachableBlock_def insert_SetVector_def
        UnreachableLifetimeCompletion_init_def)

text \<open>
  C8, amended. \<open>updatingLifetimes\<close> starts as \<open>false\<close>, and \<open>visitUnreachableBlock\<close>
  is unchecked: in every state, also once \<open>updatingLifetimes\<close> is set, it adds the block
  to \<open>unreachableBlocks\<close> and changes no other member; setting or clearing the flag
  before the call makes no difference to what the call does. Whether
  \<open>completeLifetimes\<close> and \<open>visitUnreachableInst\<close> check the flag is decided by bodies
  that are not in the header.
\<close>

theorem visitUnreachableBlock_unchecked:
  "\<not> updatingLifetimes (UnreachableLifetimeCompletion_init f d) \<and>
   set (unreachableBlocks (visitUnreachableBlock block u)) = insert block (set (unreachableBlocks u)) \<and>
   visitUnreachableBlock block u = u\<lparr>unreachableBlocks := unreachableBlocks (visitUnreachableBlock block u)\<rparr> \<and>
   updatingLifetimes (visitUnreachableBlock block u) = updatingLifetimes u \<and>
   visitUnreachableBlock block (u\<lparr>updatingLifetimes := flag\<rparr>) =
     (visitUnreachableBlock block u)\<lparr>updatingLifetimes := flag\<rparr>"
  by (auto simp: visitUnreachableBlock_def insert_SetVector_def
        UnreachableLifetimeCompletion_init_def)

subsection \<open>A borrow introducer without a local scope\<close>

text \<open>
  Lines 107-108 answer AlreadyComplete for a borrow introducer that is not locally
  scoped without looking at the function. The guaranteed argument of the function
  below is defined on entry, the one path from there to the exit holds no
  lifetime-ending instruction for it, and the call leaves the state as it was.
\<close>

lemma AlreadyComplete_without_ending:
  "completeOSSALifetime analyzeEntryBlock guaranteedArgument Liveness
     (OSSALifetimeCompletion_init returnOnly None)
   = (AlreadyComplete, OSSALifetimeCompletion_init returnOnly None) \<and>
   silFunction (OSSALifetimeCompletion_init returnOnly None) = returnOnly \<and>
   defPoint returnOnly guaranteedArgument = Some (0, 0) \<and>
   isPath returnOnly [0] \<and>
   count_list (pathInsts returnOnly 0 [0]) (EndLifetimeInst guaranteedArgument) = 0"
proof -
  have call: "completeOSSALifetime analyzeEntryBlock guaranteedArgument Liveness
     (OSSALifetimeCompletion_init returnOnly None)
   = (AlreadyComplete, OSSALifetimeCompletion_init returnOnly None)"
    by (simp add: dispatch_defs guaranteedArgument_def)
  have d: "defPoint returnOnly guaranteedArgument = Some (0, 0)"
    by (simp add: defPoint_def returnOnly_def)
  have p: "isPath returnOnly [0]"
    by (simp add: returnOnly_def)
  have n: "count_list (pathInsts returnOnly 0 [0]) (EndLifetimeInst guaranteedArgument) = 0"
    by (simp add: pathInsts_def returnOnly_def)
  from call d p n show ?thesis
    by (simp add: OSSALifetimeCompletion_init_def)
qed

subsection \<open>Leak tolerance\<close>

lemma insertBefore_Nil_iff: "insertBefore v idxs n xs = [] \<longleftrightarrow> xs = []"
  by (cases xs) auto

lemma last_insertBefore: "xs \<noteq> [] \<Longrightarrow> last (insertBefore v idxs n xs) = last xs"
proof (induction xs arbitrary: n)
  case Nil
  then show ?case by simp
next
  case (Cons x xs)
  show ?case
  proof (cases "xs = []")
    case True
    then show ?thesis by simp
  next
    case False
    with Cons.IH [of "Suc n"] show ?thesis
      by (simp add: insertBefore_Nil_iff)
  qed
qed

lemma insertBefore_no_index: "insertBefore v [] n xs = xs"
  by (induction xs arbitrary: n) auto

lemma getTerminator_insertBefore:
  "getTerminator (b\<lparr>insts := insertBefore v idxs n (insts b)\<rparr>) = getTerminator b"
  by (simp add: getTerminator_def insertBefore_Nil_iff last_insertBefore)

lemma length_insertInBlocks: "length (insertInBlocks v ps n bs) = length bs"
  by (induction bs arbitrary: n) auto

lemma nth_insertInBlocks:
  "k < length bs \<Longrightarrow>
     insertInBlocks v ps n bs ! k =
       (bs ! k)\<lparr>insts := insertBefore v (map snd (filter (\<lambda>p. fst p = n + k) ps)) 0
                            (insts (bs ! k))\<rparr>"
proof (induction bs arbitrary: n k)
  case Nil
  then show ?case by simp
next
  case (Cons b bs)
  show ?case
  proof (cases k)
    case 0
    then show ?thesis by simp
  next
    case (Suc j)
    with Cons.prems have "j < length bs" by simp
    from Cons.IH [OF this, of "Suc n"] Suc show ?thesis by simp
  qed
qed

lemma isDeadEnd_insertInBlocks:
  "isDeadEnd (f\<lparr>blocks := insertInBlocks v ps 0 (blocks f)\<rparr>) b = isDeadEnd f b"
  by (auto simp: isDeadEnd_def length_insertInBlocks nth_insertInBlocks
        getTerminator_insertBefore)

lemma isDeadEnd_endLifetimeAtAvailabilityBoundary:
  "isDeadEnd (endLifetimeAtAvailabilityBoundary value allowLeaks liveness f) b = isDeadEnd f b"
  by (simp add: endLifetimeAtAvailabilityBoundary_def isDeadEnd_insertInBlocks)

lemma set_visitedPositions:
  "set (visitedPositions f value allowLeaks liveness) =
     {p \<in> set (availabilityCandidates liveness). qualifies f allowLeaks p}"
proof -
  have collect: "fold (\<lambda>position ps. ps @ [position]) xs acc = acc @ xs"
    for xs acc :: "(nat \<times> nat) list"
    by (induction xs arbitrary: acc) auto
  show ?thesis
    by (simp add: visitedPositions_def visitAvailabilityBoundary_def collect)
qed

lemma visitAvailabilityBoundary_fold:
  "visitAvailabilityBoundary f value allowLeaks liveness visit acc =
     fold visit (visitedPositions f value allowLeaks liveness) acc"
proof -
  have collect: "fold (\<lambda>position ps. ps @ [position]) xs acc' = acc' @ xs"
    for xs acc' :: "(nat \<times> nat) list"
    by (induction xs arbitrary: acc') auto
  show ?thesis
    by (simp add: visitedPositions_def visitAvailabilityBoundary_def collect)
qed

lemma leaky_step_spares:
  assumes "b < length (blocks f)" and "\<not> isDeadEnd f b"
  shows "blocks (endLifetimeAtAvailabilityBoundary value AllowLeaks liveness f) ! b = blocks f ! b"
proof -
  have "filter (\<lambda>p. fst p = b) (visitedPositions f value AllowLeaks liveness) = []"
    using assms(2) by (auto simp: filter_empty_conv set_visitedPositions qualifies_def)
  with assms(1) show ?thesis
    by (simp add: endLifetimeAtAvailabilityBoundary_def nth_insertInBlocks
          insertBefore_no_index)
qed

lemma length_blocks_step:
  "length (blocks (endLifetimeAtAvailabilityBoundary value allowLeaks liveness f)) =
     length (blocks f)"
  by (simp add: endLifetimeAtAvailabilityBoundary_def length_insertInBlocks)

lemma leaky_steps_spare:
  assumes "b < length (blocks f)" and "\<not> isDeadEnd f b"
  shows "blocks (endLifetimes AllowLeaks steps f) ! b = blocks f ! b"
  using assms
proof (induction steps arbitrary: f)
  case Nil
  show ?case by simp
next
  case (Cons step steps)
  obtain v L where step: "step = (v, L)" by (cases step)
  let ?g = "endLifetimeAtAvailabilityBoundary v AllowLeaks L f"
  have "b < length (blocks ?g)"
    using Cons.prems(1) by (simp add: length_blocks_step)
  moreover have "\<not> isDeadEnd ?g b"
    using Cons.prems(2) by (simp add: isDeadEnd_endLifetimeAtAvailabilityBoundary)
  ultimately have "blocks (endLifetimes AllowLeaks steps ?g) ! b = blocks ?g ! b"
    by (rule Cons.IH)
  also have "\<dots> = blocks f ! b"
    using Cons.prems by (rule leaky_step_spares)
  finally show ?case
    by (simp add: step)
qed

text \<open>
  C4. Leak tolerance. With leaks allowed (the AvailabilityWithLeaks policy), the walk
  visits no position in a block whose terminator is not a guaranteed dead-end, whatever
  the liveness result and whatever the visitor does; and through any number of
  completions under that policy such a block keeps exactly the instructions it had, so
  no lifetime-ending instruction is ever inserted into it. With leaks not allowed (the
  Availability policy) every candidate position is visited, also those in blocks that
  are not dead ends.
\<close>

theorem availabilityWithLeaks_spares_blocks:
  "(\<forall>p \<in> set (visitedPositions f value AllowLeaks liveness). isDeadEnd f (fst p)) \<and>
   visitAvailabilityBoundary f value AllowLeaks liveness visit acc =
     fold visit (visitedPositions f value AllowLeaks liveness) acc \<and>
   (b < length (blocks f) \<and> \<not> isDeadEnd f b \<longrightarrow>
      blocks (endLifetimes AllowLeaks steps f) ! b = blocks f ! b) \<and>
   set (visitedPositions f value DoNotAllowLeaks liveness) = set (availabilityCandidates liveness)"
proof (intro conjI impI)
  show "\<forall>p \<in> set (visitedPositions f value AllowLeaks liveness). isDeadEnd f (fst p)"
    by (simp add: set_visitedPositions qualifies_def)
  show "visitAvailabilityBoundary f value AllowLeaks liveness visit acc =
          fold visit (visitedPositions f value AllowLeaks liveness) acc"
    by (rule visitAvailabilityBoundary_fold)
  show "set (visitedPositions f value DoNotAllowLeaks liveness) =
          set (availabilityCandidates liveness)"
    by (simp add: set_visitedPositions qualifies_def)
next
  assume "b < length (blocks f) \<and> \<not> isDeadEnd f b"
  then show "blocks (endLifetimes AllowLeaks steps f) ! b = blocks f ! b"
    by (simp add: leaky_steps_spare)
qed

lemma scenario_deadEnds:
  "\<not> isDeadEnd scenario 2" "isDeadEnd scenario 3"
  by (simp_all add: isDeadEnd_def getTerminator_def scenario_def)

theorem availabilityWithLeaks_spares_blocks_witness:
  "visitedPositions scenario ownedValue AllowLeaks scenarioLiveness = [(3, 0)] \<and>
   isDeadEnd scenario 3 \<and>
   2 < length (blocks scenario) \<and> \<not> isDeadEnd scenario 2 \<and>
   blocks (endLifetimes AllowLeaks [(ownedValue, scenarioLiveness)] scenario) ! 2
     = blocks scenario ! 2 \<and>
   blocks (endLifetimes AllowLeaks [(ownedValue, scenarioLiveness)] scenario) ! 3
     = \<lparr>insts = [EndLifetimeInst ownedValue, TermInst UnreachableInst], succs = []\<rparr> \<and>
   visitedPositions scenario ownedValue DoNotAllowLeaks scenarioLiveness = [(2, 0), (3, 0)] \<and>
   blocks (endLifetimes DoNotAllowLeaks [(ownedValue, scenarioLiveness)] scenario) ! 2
     = \<lparr>insts = [EndLifetimeInst ownedValue, TermInst ReturnInst], succs = []\<rparr>"
proof -
  have len: "2 < length (blocks scenario)"
    by (simp add: scenario_def)
  have leaky: "visitedPositions scenario ownedValue AllowLeaks scenarioLiveness = [(3, 0)]"
    by (simp add: visitedPositions_def visitAvailabilityBoundary_def qualifies_def
          scenarioLiveness_def scenario_deadEnds)
  have strict: "visitedPositions scenario ownedValue DoNotAllowLeaks scenarioLiveness
                  = [(2, 0), (3, 0)]"
    by (simp add: visitedPositions_def visitAvailabilityBoundary_def qualifies_def
          scenarioLiveness_def)
  have b3: "blocks (endLifetimes AllowLeaks [(ownedValue, scenarioLiveness)] scenario) ! 3
     = \<lparr>insts = [EndLifetimeInst ownedValue, TermInst UnreachableInst], succs = []\<rparr>"
    by (simp add: endLifetimeAtAvailabilityBoundary_def leaky) (simp add: scenario_def)
  have b2: "blocks (endLifetimes DoNotAllowLeaks [(ownedValue, scenarioLiveness)] scenario) ! 2
     = \<lparr>insts = [EndLifetimeInst ownedValue, TermInst ReturnInst], succs = []\<rparr>"
    by (simp add: endLifetimeAtAvailabilityBoundary_def strict) (simp add: scenario_def)
  from len leaky strict b3 b2 scenario_deadEnds
    availabilityWithLeaks_spares_blocks [of scenario ownedValue scenarioLiveness
      "\<lambda>position ps. ps @ [position]" "[]" 2 "[(ownedValue, scenarioLiveness)]"]
  show ?thesis by blast
qed

end
